theory Spec2Isabelle
  imports Main "HOL-Library.Char_ord" "HOL-Library.List_Lexorder"
begin

section \<open>Python values\<close>

text \<open>
  The module \<^verbatim>\<open>pureport/cli/util.py\<close> works on arbitrary Python objects: functions carrying
  click's parameter declarations, property objects, dictionaries describing groups, client
  instances.  The values below are the ones the four functions of the module distinguish.
  A function is identified by its \<^verbatim>\<open>__name__\<close>; \<open>fn_params\<close> is the list of parameters that
  click's \<^verbatim>\<open>@option\<close>/\<^verbatim>\<open>@argument\<close> decorators recorded on it (empty when there is none), and
  \<open>fn_generator\<close> says whether its body contains \<^verbatim>\<open>yield\<close>.  Text is ASCII.
\<close>

datatype pkind = OptionP | ArgumentP

datatype param = Param (p_kind: pkind) (p_name: string) (p_help: string)

datatype func = Func (fn_name: string) (fn_params: "param list") (fn_generator: bool)

datatype pyval =
    PNone
  | PBool bool
  | PInt int
  | PStr string
  | PList "pyval list"
  | PDict "(string \<times> pyval) list"
  | PFunc func
  | PMethod func pyval
  | PProperty (fget: pyval)
  | PObj nat

text \<open>
  \<open>PMethod f self\<close> is the bound method of \<open>f\<close> on \<open>self\<close>, \<open>PProperty fget\<close> a property
  object with its getter (\<open>PNone\<close> for \<^verbatim>\<open>property()\<close>), \<open>PObj n\<close> an instance of a user class,
  known by its identity.  A dictionary is the list of its items in insertion order, with
  string keys, each key once.
\<close>

datatype exn = TypeError | KeyError string | AttributeError string | Raised string

text \<open>
  What a run leaves behind, in order: a call of a callable with its positional and keyword
  arguments, and a call of \<^verbatim>\<open>click.echo\<close> with its message.
\<close>

datatype event = Call pyval "pyval list" "(string \<times> pyval) list" | Echo string

text \<open>
  Everything the module reaches but does not define is a field of the runtime: what calling
  a value with given arguments gives (a result or a raised exception), what \<^verbatim>\<open>json.dumps\<close>
  gives for a value, and for every object the names \<^verbatim>\<open>dir\<close> lists with what \<^verbatim>\<open>getattr\<close> gives
  for each.  The theorems hold for every runtime.
\<close>

record runtime =
  call_result :: "pyval \<Rightarrow> pyval list \<Rightarrow> (string \<times> pyval) list \<Rightarrow> exn + pyval"
  dumps :: "pyval \<Rightarrow> exn + string"
  attributes :: "pyval \<Rightarrow> (string \<times> (exn + pyval)) list"

section \<open>The click primitives the module uses\<close>

datatype kind = CommandNode | GroupNode

text \<open>
  The closure \<^verbatim>\<open>new_func\<close>: which of the two bodies it has, the \<^verbatim>\<open>actual_f\<close> it closes over,
  its \<^verbatim>\<open>__name__\<close> and the parameters recorded in its \<^verbatim>\<open>__dict__\<close>.
\<close>

datatype wrapper =
  Wrapper (w_kind: kind) (w_actual: pyval) (w_name: string) (w_params: "param list")

text \<open>
  A \<^verbatim>\<open>click.Command\<close> or \<^verbatim>\<open>click.Group\<close> object: its callback, the parameters click read off
  the callback, and the commands attached by \<^verbatim>\<open>add_command\<close>, in the order of the calls.
  Objects live in a store and are known by their address, the index in the store.
\<close>

datatype node =
  Node (n_kind: kind) (n_callback: wrapper) (n_params: "param list") (n_commands: "nat list")

type_synonym store = "node list"

fun function_of :: "pyval \<Rightarrow> func option" where
  "function_of (PFunc f) = Some f"
| "function_of (PMethod f self) = Some f"
| "function_of _ = None"

text \<open>
  \<^verbatim>\<open>functools.update_wrapper(wrapper, wrapped)\<close>: the name and the \<^verbatim>\<open>__dict__\<close> entries of
  \<open>wrapped\<close> are copied onto the wrapper; an attribute that \<open>wrapped\<close> lacks is skipped.
\<close>

definition update_wrapper :: "wrapper \<Rightarrow> pyval \<Rightarrow> wrapper" where
  "update_wrapper w wrapped =
     (case function_of wrapped of
        None \<Rightarrow> w
      | Some f \<Rightarrow> Wrapper (w_kind w) (w_actual w) (fn_name f) (fn_params f))"

definition click_command :: "wrapper \<Rightarrow> store \<Rightarrow> nat \<times> store" where
  "click_command f h = (length h, h @ [Node CommandNode f (w_params f) []])"

definition click_group :: "wrapper \<Rightarrow> store \<Rightarrow> nat \<times> store" where
  "click_group f h = (length h, h @ [Node GroupNode f (w_params f) []])"

definition add_command :: "nat \<Rightarrow> nat \<Rightarrow> store \<Rightarrow> store" where
  "add_command grp cmd h =
     h[grp := Node (n_kind (h ! grp)) (n_callback (h ! grp)) (n_params (h ! grp))
                   (n_commands (h ! grp) @ [cmd])]"

text \<open>
  The invocation context of click: \<^verbatim>\<open>ctx.obj\<close>.  A sub-command's context is made from its
  parent's and starts with the parent's \<open>obj\<close>.
\<close>

record click_ctx =
  ctx_obj :: pyval


section \<open>The adapters\<close>

text \<open>\<^verbatim>\<open>isinstance(f, property)\<close>.\<close>

fun is_property :: "pyval \<Rightarrow> bool" where
  "is_property (PProperty g) = True"
| "is_property _ = False"

text \<open>
  The body of \<^verbatim>\<open>new_func\<close> in \<^verbatim>\<open>__create_client_command\<close>:
  \<^verbatim>\<open>response = actual_f(obj, *args, **kwargs)\<close>, then \<^verbatim>\<open>echo(dumps(response))\<close> unless the
  response is \<^verbatim>\<open>None\<close>, then \<^verbatim>\<open>return response\<close>.
\<close>

definition command_new_func ::
  "runtime \<Rightarrow> pyval \<Rightarrow> pyval \<Rightarrow> pyval list \<Rightarrow> (string \<times> pyval) list \<Rightarrow> event list
     \<Rightarrow> (exn + pyval) \<times> event list" where
  "command_new_func rt actual_f obj args kwargs tr =
     (let tr1 = tr @ [Call actual_f (obj # args) kwargs] in
      case call_result rt actual_f (obj # args) kwargs of
        Inl e \<Rightarrow> (Inl e, tr1)
      | Inr response \<Rightarrow>
          if response \<noteq> PNone then
            (case dumps rt response of
               Inl e \<Rightarrow> (Inl e, tr1)
             | Inr s \<Rightarrow> (Inr response, tr1 @ [Echo s]))
          else (Inr response, tr1))"

text \<open>
  The body of \<^verbatim>\<open>new_func\<close> in \<^verbatim>\<open>__create_client_group\<close>:
  \<^verbatim>\<open>ctx.obj = actual_f(obj, *args, **kwargs)\<close>, and the function ends without a
  \<^verbatim>\<open>return\<close>.
\<close>

definition group_new_func ::
  "runtime \<Rightarrow> pyval \<Rightarrow> click_ctx \<Rightarrow> pyval \<Rightarrow> pyval list \<Rightarrow> (string \<times> pyval) list \<Rightarrow> event list
     \<Rightarrow> (exn + pyval) \<times> click_ctx \<times> event list" where
  "group_new_func rt actual_f ctx obj args kwargs tr =
     (let tr1 = tr @ [Call actual_f (obj # args) kwargs] in
      case call_result rt actual_f (obj # args) kwargs of
        Inl e \<Rightarrow> (Inl e, ctx, tr1)
      | Inr v \<Rightarrow> (Inr PNone, ctx\<lparr>ctx_obj := v\<rparr>, tr1))"

text \<open>
  Calling a callback in a context.  \<^verbatim>\<open>@pass_obj\<close> passes the \<open>obj\<close> of the current context
  as the first argument, \<^verbatim>\<open>@pass_context\<close> the context itself.
\<close>

definition invoke_callback ::
  "runtime \<Rightarrow> wrapper \<Rightarrow> click_ctx \<Rightarrow> pyval list \<Rightarrow> (string \<times> pyval) list \<Rightarrow> event list
     \<Rightarrow> (exn + pyval) \<times> click_ctx \<times> event list" where
  "invoke_callback rt w ctx args kwargs tr =
     (case w_kind w of
        CommandNode \<Rightarrow>
          (case command_new_func rt (w_actual w) (ctx_obj ctx) args kwargs tr of
             (r, tr1) \<Rightarrow> (r, ctx, tr1))
      | GroupNode \<Rightarrow> group_new_func rt (w_actual w) ctx (ctx_obj ctx) args kwargs tr)"

text \<open>
  \<^verbatim>\<open>__create_client_group(f)\<close> and \<^verbatim>\<open>__create_client_command(f)\<close>.  Each allocates one
  node and returns its address with the new store.
\<close>

definition create_client_group :: "pyval \<Rightarrow> store \<Rightarrow> nat \<times> store" where
  "create_client_group f h =
     (let actual_f = (if is_property f then fget f else f);
          new_func = Wrapper GroupNode actual_f ''new_func'' [];
          new_func = update_wrapper new_func actual_f
      in click_group new_func h)"

definition create_client_command :: "pyval \<Rightarrow> store \<Rightarrow> nat \<times> store" where
  "create_client_command f h =
     (let actual_f = (if is_property f then fget f else f);
          new_func = Wrapper CommandNode actual_f ''new_func'' [];
          new_func = update_wrapper new_func actual_f
      in click_command new_func h)"

text \<open>
  Running the command or group at address \<open>i\<close> of the store in a context: click calls the
  node's callback.
\<close>

definition invoke_node ::
  "runtime \<Rightarrow> store \<Rightarrow> nat \<Rightarrow> click_ctx \<Rightarrow> pyval list \<Rightarrow> (string \<times> pyval) list \<Rightarrow> event list
     \<Rightarrow> (exn + pyval) \<times> click_ctx \<times> event list" where
  "invoke_node rt h i ctx args kwargs tr = invoke_callback rt (n_callback (h ! i)) ctx args kwargs tr"


section \<open>The tree builder\<close>

text \<open>
  \<^verbatim>\<open>isinstance(cmd, dict) and 'context' in cmd\<close>, \<^verbatim>\<open>cmd[k]\<close> and the items a \<^verbatim>\<open>for\<close> loop gets
  from a value: the elements of a list, the keys of a dictionary, the characters of a
  string; any other value here is not iterable.
\<close>

fun is_group_descriptor :: "pyval \<Rightarrow> bool" where
  "is_group_descriptor (PDict kvs) = (map_of kvs ''context'' \<noteq> None)"
| "is_group_descriptor _ = False"

fun getitem :: "pyval \<Rightarrow> string \<Rightarrow> exn + pyval" where
  "getitem (PDict kvs) k = (case map_of kvs k of None \<Rightarrow> Inl (KeyError k) | Some v \<Rightarrow> Inr v)"
| "getitem _ k = Inl TypeError"

fun py_iter :: "pyval \<Rightarrow> exn + pyval list" where
  "py_iter (PList xs) = Inr xs"
| "py_iter (PDict kvs) = Inr (map (\<lambda>kv. PStr (fst kv)) kvs)"
| "py_iter (PStr s) = Inr (map (\<lambda>c. PStr [c]) s)"
| "py_iter _ = Inl TypeError"

text \<open>Sizes, for the termination of the builder.\<close>

lemma size_map_of: "map_of kvs k = Some v \<Longrightarrow> size v < size (PDict kvs)"
  by (induction kvs) (auto split: if_splits)

lemma size_py_iter: "py_iter sub = Inr xs \<Longrightarrow> sum_list (map size xs) \<le> size sub"
proof (cases sub)
  case (PList ys)
  assume "py_iter sub = Inr xs"
  with PList have "xs = ys" by simp
  moreover have "sum_list (map size ys) \<le> size_list size ys" by (induction ys) auto
  ultimately show ?thesis using PList by simp
qed (auto simp: comp_def)

lemma size_children:
  "getitem cmd k = Inr sub \<Longrightarrow> py_iter sub = Inr xs \<Longrightarrow> sum_list (map size xs) < size cmd"
  by (cases cmd) (auto split: option.splits dest!: size_map_of size_py_iter)

text \<open>
  The body of the loop of \<^verbatim>\<open>construct_commands\<close> for one \<open>cmd\<close>, up to its \<^verbatim>\<open>yield\<close>, and the
  inner loop \<^verbatim>\<open>for child_cmd in construct_commands(cmd['commands']): grp.add_command(child_cmd)\<close>
  over the items the inner generator still has to go through.  The group is created first;
  only then is \<^verbatim>\<open>cmd['commands']\<close> looked up and iterated, so a \<^verbatim>\<open>KeyError\<close> or a \<^verbatim>\<open>TypeError\<close> there
  leaves the group allocated.  The recursion runs over the items of the inner generator
  rather than over the generator object, which makes its termination structural; lemma
  \<open>yield_node_generator\<close> below gives the body with the inner generator and its loop
  written as in the source.
\<close>

function yield_node :: "pyval \<Rightarrow> store \<Rightarrow> (exn + nat) \<times> store"
  and attach_children :: "nat \<Rightarrow> pyval list \<Rightarrow> store \<Rightarrow> exn option \<times> store" where
  "yield_node cmd h =
     (if is_group_descriptor cmd then
        (case getitem cmd ''context'' of
           Inl e \<Rightarrow> (Inl e, h)
         | Inr f \<Rightarrow>
             (case create_client_group f h of
                (grp, h1) \<Rightarrow>
                  (case getitem cmd ''commands'' of
                     Inl e \<Rightarrow> (Inl e, h1)
                   | Inr sub \<Rightarrow>
                       (case py_iter sub of
                          Inl e \<Rightarrow> (Inl e, h1)
                        | Inr children \<Rightarrow>
                            (case attach_children grp children h1 of
                               (Some e, h2) \<Rightarrow> (Inl e, h2)
                             | (None, h2) \<Rightarrow> (Inr grp, h2))))))
      else (case create_client_command cmd h of (c, h1) \<Rightarrow> (Inr c, h1)))"
| "attach_children grp [] h = (None, h)"
| "attach_children grp (child_cmd # rest) h =
     (case yield_node child_cmd h of
        (Inl e, h1) \<Rightarrow> (Some e, h1)
      | (Inr c, h1) \<Rightarrow> attach_children grp rest (add_command grp c h1))"
  by pat_completeness auto
termination
  by (relation "inv_image (less_than <*lex*> less_than)
        (\<lambda>x. case x of Inl (cmd, h) \<Rightarrow> (size cmd, 0)
                | Inr (grp, xs, h) \<Rightarrow> (sum_list (map size xs), Suc (length xs)))")
     (auto dest: size_children)

declare yield_node.simps [simp del]

section \<open>The generator\<close>

text \<open>
  \<^verbatim>\<open>construct_commands\<close> is a generator function: calling it runs none of its body and
  gives a generator object, which is created, suspended at a \<^verbatim>\<open>yield\<close> with the items its loop
  still has to go through, or finished.  \<^verbatim>\<open>next\<close> runs it to its next \<^verbatim>\<open>yield\<close>: it yields the
  address of a node, stops, or raises; after it stopped or raised it is finished.
\<close>

datatype generator = Created pyval | Suspended "pyval list" | Finished

datatype step = Yield nat | StopIteration | Raise exn

definition construct_commands :: "pyval \<Rightarrow> generator" where
  "construct_commands commands = Created commands"

fun resume :: "pyval list \<Rightarrow> store \<Rightarrow> step \<times> generator \<times> store" where
  "resume [] h = (StopIteration, Finished, h)"
| "resume (cmd # rest) h =
     (case yield_node cmd h of
        (Inl e, h1) \<Rightarrow> (Raise e, Finished, h1)
      | (Inr n, h1) \<Rightarrow> (Yield n, Suspended rest, h1))"

fun gen_next :: "generator \<Rightarrow> store \<Rightarrow> step \<times> generator \<times> store" where
  "gen_next (Created commands) h =
     (case py_iter commands of
        Inl e \<Rightarrow> (Raise e, Finished, h)
      | Inr cmds \<Rightarrow> resume cmds h)"
| "gen_next (Suspended cmds) h = resume cmds h"
| "gen_next Finished h = (StopIteration, Finished, h)"

text \<open>A bound on the number of calls of \<^verbatim>\<open>next\<close> a generator still answers with a node.\<close>

fun pending :: "generator \<Rightarrow> nat" where
  "pending (Created commands) = (case py_iter commands of Inl e \<Rightarrow> 1 | Inr cmds \<Rightarrow> Suc (length cmds))"
| "pending (Suspended cmds) = Suc (length cmds)"
| "pending Finished = 0"

lemma pending_resume: "resume cmds h = (Yield n, g', h') \<Longrightarrow> pending g' < Suc (length cmds)"
  by (cases cmds) (auto split: sum.splits prod.splits)

lemma pending_next: "gen_next g h = (Yield n, g', h') \<Longrightarrow> pending g' < pending g"
  by (cases g) (auto split: sum.splits dest: pending_resume)

text \<open>
  \<^verbatim>\<open>list(g)\<close>: the nodes a generator yields until it stops, and the loop
  \<^verbatim>\<open>for child_cmd in g: grp.add_command(child_cmd)\<close>.
\<close>

function list_of :: "generator \<Rightarrow> store \<Rightarrow> (exn + nat list) \<times> generator \<times> store" where
  "list_of g h =
     (case gen_next g h of
        (StopIteration, g', h') \<Rightarrow> (Inr [], g', h')
      | (Raise e, g', h') \<Rightarrow> (Inl e, g', h')
      | (Yield n, g', h') \<Rightarrow>
          (case list_of g' h' of
             (Inl e, g'', h'') \<Rightarrow> (Inl e, g'', h'')
           | (Inr ns, g'', h'') \<Rightarrow> (Inr (n # ns), g'', h'')))"
  by pat_completeness auto
termination
  by (relation "measure (\<lambda>(g, h). pending g)") (auto dest: pending_next [OF sym])

function add_all :: "nat \<Rightarrow> generator \<Rightarrow> store \<Rightarrow> exn option \<times> store" where
  "add_all grp g h =
     (case gen_next g h of
        (StopIteration, g', h') \<Rightarrow> (None, h')
      | (Raise e, g', h') \<Rightarrow> (Some e, h')
      | (Yield child_cmd, g', h') \<Rightarrow> add_all grp g' (add_command grp child_cmd h'))"
  by pat_completeness auto
termination
  by (relation "measure (\<lambda>(grp, g, h). pending g)") (auto dest: pending_next [OF sym])

declare list_of.simps [simp del] add_all.simps [simp del]

section \<open>The tree a store holds, and the tree a descriptor describes\<close>



text \<open>
  The callable an adapter wraps, \<^verbatim>\<open>f.fget if isinstance(f, property) else f\<close>, and the callback
  it hands to click: \<^verbatim>\<open>new_func\<close> closed over that callable, after \<^verbatim>\<open>update_wrapper\<close>.
\<close>

definition actual :: "pyval \<Rightarrow> pyval" where
  "actual f = (if is_property f then fget f else f)"

definition adapter_callback :: "kind \<Rightarrow> pyval \<Rightarrow> wrapper" where
  "adapter_callback k f = update_wrapper (Wrapper k (actual f) ''new_func'' []) (actual f)"

text \<open>
  The tree builder as the specification words it: an internal node (a descriptor with a
  \<^verbatim>\<open>context\<close> key) is a group built from its \<^verbatim>\<open>context\<close> entry whose children are the trees of its
  \<^verbatim>\<open>commands\<close>, in their order; any other descriptor is a leaf command.  A descriptor is
  well formed when every internal node in it has a \<^verbatim>\<open>commands\<close> entry that can be iterated.
\<close>

definition context_of :: "pyval \<Rightarrow> pyval" where
  "context_of cmd = (case getitem cmd ''context'' of Inl e \<Rightarrow> PNone | Inr f \<Rightarrow> f)"











section \<open>Command discovery\<close>

text \<open>
  \<^verbatim>\<open>dir(obj)\<close> gives the attribute names of \<open>obj\<close> sorted and without repetition, and
  \<^verbatim>\<open>getattr(obj, name)\<close> what resolving the name gives: a value, or a raised exception (a
  property whose getter raises).  Strings are compared as Python compares them, character
  by character by code.  \<^verbatim>\<open>inspect.isfunction\<close> holds of plain functions, \<^verbatim>\<open>inspect.ismethod\<close> of
  bound methods, \<^verbatim>\<open>inspect.isgeneratorfunction\<close> of functions and bound methods whose code is
  a generator's.
\<close>

definition py_dir :: "runtime \<Rightarrow> pyval \<Rightarrow> string list" where
  "py_dir rt obj = sort (remdups (map fst (attributes rt obj)))"

definition py_getattr :: "runtime \<Rightarrow> pyval \<Rightarrow> string \<Rightarrow> exn + pyval" where
  "py_getattr rt obj name =
     (case map_of (attributes rt obj) name of
        None \<Rightarrow> Inl (AttributeError name)
      | Some r \<Rightarrow> r)"

definition startswith :: "string \<Rightarrow> string \<Rightarrow> bool" where
  "startswith name p = (take (length p) name = p)"

fun isfunction :: "pyval \<Rightarrow> bool" where
  "isfunction (PFunc f) = True"
| "isfunction _ = False"

fun ismethod :: "pyval \<Rightarrow> bool" where
  "ismethod (PMethod f self) = True"
| "ismethod _ = False"

fun isgeneratorfunction :: "pyval \<Rightarrow> bool" where
  "isgeneratorfunction (PFunc f) = fn_generator f"
| "isgeneratorfunction (PMethod f self) = fn_generator f"
| "isgeneratorfunction _ = False"

fun find_loop :: "runtime \<Rightarrow> pyval \<Rightarrow> string list \<Rightarrow> pyval list \<Rightarrow> exn + pyval list" where
  "find_loop rt obj [] commands = Inr commands"
| "find_loop rt obj (name # names) commands =
     (if \<not> startswith name ''_'' then
        (case py_getattr rt obj name of
           Inl e \<Rightarrow> Inl e
         | Inr attr \<Rightarrow>
             if isgeneratorfunction attr \<or> isfunction attr \<or> ismethod attr
             then find_loop rt obj names (commands @ [attr])
             else find_loop rt obj names commands)
      else find_loop rt obj names commands)"




section \<open>A sample runtime\<close>

text \<open>
  The example of the specification: a client \<open>PObj 0\<close> whose \<^verbatim>\<open>accounts\<close> property gives the
  accounts client \<open>PObj 1\<close>, whose \<^verbatim>\<open>list\<close> gives \<^verbatim>\<open>[{"id": 1}]\<close>; \<^verbatim>\<open>delete\<close> returns nothing,
  \<^verbatim>\<open>get\<close> returns its receiver, which has no JSON text, and \<^verbatim>\<open>fail\<close> raises.
\<close>

definition accounts_fn :: func where
  "accounts_fn = Func ''accounts'' [] False"

definition list_fn :: func where
  "list_fn = Func ''list'' [Param OptionP ''--limit'' ''page size''] False"

definition delete_fn :: func where
  "delete_fn = Func ''delete'' [Param ArgumentP ''id'' ''''] False"

definition get_fn :: func where
  "get_fn = Func ''get'' [Param ArgumentP ''id'' ''''] False"

definition fail_fn :: func where
  "fail_fn = Func ''fail'' [] False"

definition sample_call :: "pyval \<Rightarrow> pyval list \<Rightarrow> (string \<times> pyval) list \<Rightarrow> exn + pyval" where
  "sample_call f args kwargs =
     (if f = PFunc accounts_fn \<and> args = [PObj 0] then Inr (PObj 1)
      else if f = PFunc list_fn \<and> args = [PObj 1] then Inr (PList [PDict [(''id'', PInt 1)]])
      else if f = PFunc delete_fn \<and> length args = 2 then Inr PNone
      else if f = PFunc get_fn \<and> length args = 2 then Inr (hd args)
      else if f = PFunc fail_fn then Inl (Raised ''boom'')
      else Inl TypeError)"

definition sample_dumps :: "pyval \<Rightarrow> exn + string" where
  "sample_dumps v =
     (if v = PList [PDict [(''id'', PInt 1)]] then Inr ''[{\"id\": 1}]'' else Inl TypeError)"

definition sample_attributes :: "pyval \<Rightarrow> (string \<times> (exn + pyval)) list" where
  "sample_attributes obj =
     (if obj = PObj 1 then
        [(''list'', Inr (PMethod list_fn (PObj 1))),
         (''_session'', Inr (PObj 7)),
         (''delete'', Inr (PMethod delete_fn (PObj 1))),
         (''base_url'', Inr (PStr ''https://api'')),
         (''__init__'', Inr (PMethod (Func ''__init__'' [] False) (PObj 1))),
         (''Get'', Inr (PFunc get_fn))]
      else [])"

definition sample_runtime :: runtime where
  "sample_runtime =
     \<lparr>call_result = sample_call, dumps = sample_dumps, attributes = sample_attributes\<rparr>"

definition sample_group :: pyval where
  "sample_group = PDict [(''context'', PProperty (PFunc accounts_fn)),
                         (''commands'', PList [PFunc list_fn, PFunc delete_fn])]"



section \<open>Facts about the adapters and the builder\<close>

lemma create_client_command_eq:
  "create_client_command f h =
     (length h, h @ [Node CommandNode (adapter_callback CommandNode f)
                       (w_params (adapter_callback CommandNode f)) []])"
  by (simp add: create_client_command_def click_command_def adapter_callback_def actual_def Let_def)

lemma create_client_group_eq:
  "create_client_group f h =
     (length h, h @ [Node GroupNode (adapter_callback GroupNode f)
                       (w_params (adapter_callback GroupNode f)) []])"
  by (simp add: create_client_group_def click_group_def adapter_callback_def actual_def Let_def)

lemma group_descriptor_context:
  "is_group_descriptor cmd \<Longrightarrow> getitem cmd ''context'' = Inr (context_of cmd)"
  by (cases cmd) (auto simp: context_of_def split: option.splits)

lemma length_add_command [simp]: "length (add_command grp c h) = length h"
  by (simp add: add_command_def)

lemma nth_add_command_other: "j \<noteq> grp \<Longrightarrow> add_command grp c h ! j = h ! j"
  by (simp add: add_command_def)

lemma nth_add_command_same:
  "grp < length h \<Longrightarrow>
     add_command grp c h ! grp =
       Node (n_kind (h ! grp)) (n_callback (h ! grp)) (n_params (h ! grp)) (n_commands (h ! grp) @ [c])"
  by (simp add: add_command_def)

text \<open>What a build leaves untouched.\<close>

lemma build_frame:
  "(\<forall>r h'. yield_node cmd h = (r, h') \<longrightarrow>
      length h < length h' \<and> (\<forall>j < length h. h' ! j = h ! j) \<and> (\<forall>n. r = Inr n \<longrightarrow> n = length h))"
  "(\<forall>r h'. grp < length h \<longrightarrow> attach_children grp cmds h = (r, h') \<longrightarrow>
      length h \<le> length h' \<and> (\<forall>j < length h. j \<noteq> grp \<longrightarrow> h' ! j = h ! j)
      \<and> n_kind (h' ! grp) = n_kind (h ! grp) \<and> n_callback (h' ! grp) = n_callback (h ! grp)
      \<and> n_params (h' ! grp) = n_params (h ! grp))"
proof (induction cmd h and grp cmds h rule: yield_node_attach_children.induct)
  case (1 cmd h)
  show ?case
  proof (intro allI impI)
    fix r h'
    assume y: "yield_node cmd h = (r, h')"
    show "length h < length h' \<and> (\<forall>j < length h. h' ! j = h ! j) \<and> (\<forall>n. r = Inr n \<longrightarrow> n = length h)"
    proof (cases "is_group_descriptor cmd")
      case False
      with y show ?thesis
        by (auto simp: yield_node.simps create_client_command_eq nth_append)
    next
      case True
      note g = group_descriptor_context [OF True]
      let ?h1 = "h @ [Node GroupNode (adapter_callback GroupNode (context_of cmd))
                       (w_params (adapter_callback GroupNode (context_of cmd))) []]"
      show ?thesis
      proof (cases "getitem cmd ''commands''")
        case (Inl e)
        with y True g show ?thesis
          by (auto simp: yield_node.simps create_client_group_eq nth_append)
      next
        case (Inr sub)
        show ?thesis
        proof (cases "py_iter sub")
          case (Inl e)
          with y True g Inr show ?thesis
            by (auto simp: yield_node.simps create_client_group_eq nth_append)
        next
          case (Inr children)
          obtain r2 h2 where a: "attach_children (length h) children ?h1 = (r2, h2)"
            by (cases "attach_children (length h) children ?h1")
          from "1.IH" [OF True g _ \<open>getitem cmd ''commands'' = Inr sub\<close> Inr, of "length h" ?h1]
          have ih: "length ?h1 \<le> length h2 \<and> (\<forall>j < length ?h1. j \<noteq> length h \<longrightarrow> h2 ! j = ?h1 ! j)"
            using a by (simp add: create_client_group_eq)
          from y True g \<open>getitem cmd ''commands'' = Inr sub\<close> Inr a
          have r: "h' = h2" "r = (case r2 of None \<Rightarrow> Inr (length h) | Some e \<Rightarrow> Inl e)"
            by (auto simp: yield_node.simps create_client_group_eq split: option.splits)
          from ih r show ?thesis
            by (auto simp: nth_append split: option.splits)
        qed
      qed
    qed
  qed
next
  case (2 grp h)
  show ?case by simp
next
  case (3 grp child_cmd rest h)
  show ?case
  proof (intro allI impI)
    fix r h'
    assume grp: "grp < length h" and a: "attach_children grp (child_cmd # rest) h = (r, h')"
    obtain r1 h1 where y: "yield_node child_cmd h = (r1, h1)" by (cases "yield_node child_cmd h")
    from "3.IH"(1) y have f1: "length h < length h1" "\<forall>j < length h. h1 ! j = h ! j"
      by auto
    show "length h \<le> length h' \<and> (\<forall>j < length h. j \<noteq> grp \<longrightarrow> h' ! j = h ! j)
      \<and> n_kind (h' ! grp) = n_kind (h ! grp) \<and> n_callback (h' ! grp) = n_callback (h ! grp)
      \<and> n_params (h' ! grp) = n_params (h ! grp)"
    proof (cases r1)
      case (Inl e)
      with a y f1 grp show ?thesis by auto
    next
      case (Inr c)
      let ?h2 = "add_command grp c h1"
      from a y Inr have a2: "attach_children grp rest ?h2 = (r, h')" by simp
      from "3.IH"(2) [OF y [symmetric] Inr] a2 grp f1
      have ih: "length ?h2 \<le> length h'" "\<forall>j < length ?h2. j \<noteq> grp \<longrightarrow> h' ! j = ?h2 ! j"
        "n_kind (h' ! grp) = n_kind (?h2 ! grp)" "n_callback (h' ! grp) = n_callback (?h2 ! grp)"
        "n_params (h' ! grp) = n_params (?h2 ! grp)"
        by auto
      from grp f1 have "grp < length h1" by simp
      with ih f1 grp show ?thesis
        by (auto simp: nth_add_command_other nth_add_command_same)
    qed
  qed
qed






lemma add_all_Suspended: "add_all grp (Suspended cmds) h = attach_children grp cmds h"
proof (induction cmds arbitrary: h)
  case Nil
  show ?case by (simp add: add_all.simps)
next
  case (Cons c cs)
  show ?case
    by (subst add_all.simps) (simp add: Cons split: prod.splits sum.splits)
qed

lemma add_all_Created:
  "add_all grp (construct_commands sub) h =
     (case py_iter sub of Inl e \<Rightarrow> (Some e, h) | Inr children \<Rightarrow> attach_children grp children h)"
proof (cases "py_iter sub")
  case (Inl e)
  then show ?thesis by (simp add: add_all.simps construct_commands_def)
next
  case (Inr cs)
  show ?thesis
  proof (cases cs)
    case Nil
    with Inr show ?thesis by (simp add: add_all.simps construct_commands_def)
  next
    case (Cons c cs')
    with Inr show ?thesis
      by (subst add_all.simps) (simp add: construct_commands_def add_all_Suspended split: prod.splits sum.splits)
  qed
qed

text \<open>
  The loop over a generator is the loop over its pending items, so the loop body of
  \<^verbatim>\<open>construct_commands\<close>, written with the inner generator as in the source, is \<open>yield_node\<close>.
\<close>

lemma yield_node_generator:
  "yield_node cmd h =
     (if is_group_descriptor cmd then
        (case getitem cmd ''context'' of
           Inl e \<Rightarrow> (Inl e, h)
         | Inr f \<Rightarrow>
             (case create_client_group f h of
                (grp, h1) \<Rightarrow>
                  (case getitem cmd ''commands'' of
                     Inl e \<Rightarrow> (Inl e, h1)
                   | Inr sub \<Rightarrow>
                       (case add_all grp (construct_commands sub) h1 of
                          (Some e, h2) \<Rightarrow> (Inl e, h2)
                        | (None, h2) \<Rightarrow> (Inr grp, h2)))))
      else (case create_client_command cmd h of (c, h1) \<Rightarrow> (Inr c, h1)))"
  by (subst yield_node.simps) (simp add: add_all_Created split: sum.splits prod.splits option.splits)

lemma actual_simps [simp]:
  "actual (PProperty g) = g" "\<not> is_property f \<Longrightarrow> actual f = f"
  by (simp_all add: actual_def)

lemma adapter_callback_sel [simp]:
  "w_kind (adapter_callback k f) = k" "w_actual (adapter_callback k f) = actual f"
  by (simp_all add: adapter_callback_def update_wrapper_def split: option.splits)

lemma invoke_command_callback:
  "invoke_callback rt (adapter_callback CommandNode f) ctx args kwargs tr =
     (case call_result rt (actual f) (ctx_obj ctx # args) kwargs of
        Inl e \<Rightarrow> (Inl e, ctx, tr @ [Call (actual f) (ctx_obj ctx # args) kwargs])
      | Inr v \<Rightarrow>
          if v = PNone then (Inr PNone, ctx, tr @ [Call (actual f) (ctx_obj ctx # args) kwargs])
          else (case dumps rt v of
                  Inl e \<Rightarrow> (Inl e, ctx, tr @ [Call (actual f) (ctx_obj ctx # args) kwargs])
                | Inr s \<Rightarrow> (Inr v, ctx, tr @ [Call (actual f) (ctx_obj ctx # args) kwargs, Echo s])))"
  by (simp add: invoke_callback_def command_new_func_def split: sum.splits)

lemma invoke_group_callback:
  "invoke_callback rt (adapter_callback GroupNode f) ctx args kwargs tr =
     (case call_result rt (actual f) (ctx_obj ctx # args) kwargs of
        Inl e \<Rightarrow> (Inl e, ctx, tr @ [Call (actual f) (ctx_obj ctx # args) kwargs])
      | Inr v \<Rightarrow> (Inr PNone, ctx\<lparr>ctx_obj := v\<rparr>, tr @ [Call (actual f) (ctx_obj ctx # args) kwargs]))"
  by (simp add: invoke_callback_def group_new_func_def split: sum.splits)

lemma command_node:
  assumes "create_client_command f h = (i, h')"
  shows "i = length h"
    and "h' = h @ [Node CommandNode (adapter_callback CommandNode f)
                     (w_params (adapter_callback CommandNode f)) []]"
    and "h' ! i = Node CommandNode (adapter_callback CommandNode f)
                    (w_params (adapter_callback CommandNode f)) []"
  using assms by (auto simp: create_client_command_eq)

lemma group_node:
  assumes "create_client_group f h = (i, h')"
  shows "i = length h"
    and "h' = h @ [Node GroupNode (adapter_callback GroupNode f)
                     (w_params (adapter_callback GroupNode f)) []]"
    and "h' ! i = Node GroupNode (adapter_callback GroupNode f)
                    (w_params (adapter_callback GroupNode f)) []"
  using assms by (auto simp: create_client_group_eq)







lemma find_loop_raises:
  "\<not> startswith name ''_'' \<Longrightarrow> py_getattr rt obj name = Inl e \<Longrightarrow>
     (\<And>n. n \<in> set before \<Longrightarrow> \<not> startswith n ''_'' \<Longrightarrow> \<exists>v. py_getattr rt obj n = Inr v) \<Longrightarrow>
     find_loop rt obj (before @ name # rest) commands = Inl e"
proof (induction before arbitrary: commands)
  case Nil
  then show ?case by simp
next
  case (Cons n ns)
  have ih: "\<And>cs. find_loop rt obj (ns @ name # rest) cs = Inl e"
    by (rule Cons.IH [OF Cons.prems(1,2)]) (simp add: Cons.prems(3))
  show ?case
  proof (cases "startswith n ''_''")
    case True
    then show ?thesis by (simp add: ih)
  next
    case False
    with Cons.prems(3) [of n] obtain v where "py_getattr rt obj n = Inr v" by auto
    with False show ?thesis by (simp add: ih)
  qed
qed


lemma set_py_dir [simp]: "set (py_dir rt obj) = fst ` set (attributes rt obj)"
  by (simp add: py_dir_def)


lemma yield_node_leaf:
  "\<not> is_group_descriptor cmd \<Longrightarrow>
     yield_node cmd h =
       (Inr (length h), h @ [Node CommandNode (adapter_callback CommandNode cmd)
                               (w_params (adapter_callback CommandNode cmd)) []])"
  by (subst yield_node.simps) (simp add: create_client_command_eq)

lemma yield_node_group:
  "is_group_descriptor cmd \<Longrightarrow>
     yield_node cmd h =
       (case getitem cmd ''commands'' of
          Inl e \<Rightarrow> (Inl e, h @ [Node GroupNode (adapter_callback GroupNode (context_of cmd))
                                   (w_params (adapter_callback GroupNode (context_of cmd))) []])
        | Inr sub \<Rightarrow>
            (case py_iter sub of
               Inl e \<Rightarrow> (Inl e, h @ [Node GroupNode (adapter_callback GroupNode (context_of cmd))
                                        (w_params (adapter_callback GroupNode (context_of cmd))) []])
             | Inr children \<Rightarrow>
                 (case attach_children (length h) children
                         (h @ [Node GroupNode (adapter_callback GroupNode (context_of cmd))
                                 (w_params (adapter_callback GroupNode (context_of cmd))) []]) of
                    (Some e, h2) \<Rightarrow> (Inl e, h2)
                  | (None, h2) \<Rightarrow> (Inr (length h), h2))))"
  by (subst yield_node.simps)
     (simp add: create_client_group_eq group_descriptor_context)

lemma yield_node_first:
  assumes "yield_node cmd h = (r, h')"
  shows "length h < length h'"
    and "n_kind (h' ! length h) = (if is_group_descriptor cmd then GroupNode else CommandNode)"
    and "n_callback (h' ! length h) =
           (if is_group_descriptor cmd then adapter_callback GroupNode (context_of cmd)
            else adapter_callback CommandNode cmd)"
proof -
  let ?g = "Node GroupNode (adapter_callback GroupNode (context_of cmd))
                                   (w_params (adapter_callback GroupNode (context_of cmd))) []"
  have "length h < length h' \<and>
    n_kind (h' ! length h) = (if is_group_descriptor cmd then GroupNode else CommandNode) \<and>
    n_callback (h' ! length h) =
           (if is_group_descriptor cmd then adapter_callback GroupNode (context_of cmd)
            else adapter_callback CommandNode cmd)"
  proof (cases "is_group_descriptor cmd")
    case False
    with assms show ?thesis by (auto simp: yield_node_leaf)
  next
    case True
    note u = assms [unfolded yield_node_group [OF True]]
    show ?thesis
    proof (cases "getitem cmd ''commands''")
      case (Inl e)
      with u True show ?thesis by auto
    next
      case (Inr sub)
      note s = this
      show ?thesis
      proof (cases "py_iter sub")
        case (Inl e)
        with u s True show ?thesis by auto
      next
        case (Inr children)
        obtain r2 h2 where a: "attach_children (length h) children (h @ [?g]) = (r2, h2)"
          by (cases "attach_children (length h) children (h @ [?g])")
        from u s Inr a have "h' = h2" by (auto split: option.splits)
        with build_frame(2) [of "length h" "h @ [?g]" children] a True
        show ?thesis by auto
      qed
    qed
  qed
  then show "length h < length h'"
    and "n_kind (h' ! length h) = (if is_group_descriptor cmd then GroupNode else CommandNode)"
    and "n_callback (h' ! length h) =
           (if is_group_descriptor cmd then adapter_callback GroupNode (context_of cmd)
            else adapter_callback CommandNode cmd)"
    by simp_all
qed

lemma is_group_descriptor_iff:
  "is_group_descriptor cmd \<longleftrightarrow> (\<exists>kvs. cmd = PDict kvs \<and> ''context'' \<in> fst ` set kvs)"
  by (cases cmd) (auto simp: map_of_eq_None_iff)

lemma list_of_Finished: "list_of Finished h = (Inr [], Finished, h)"
  by (subst list_of.simps) simp










lemma map_callback_add_command [simp]:
  "map n_callback (add_command grp c h) = map n_callback h"
proof (cases "grp < length h")
  case True
  then show ?thesis
    by (simp add: add_command_def map_update list_update_same_conv)
next
  case False
  then show ?thesis by (simp add: add_command_def list_update_beyond)
qed









section \<open>The leaf adapter\<close>

text \<open>
  Claim C1.  For every \<open>f\<close> and every receiver \<open>r\<close>, running the command that
  \<^verbatim>\<open>__create_client_command\<close> builds from \<open>f\<close>, in a context whose \<open>obj\<close> is \<open>r\<close> and with the
  arguments \<open>args\<close> and \<open>kwargs\<close>, adds to the trace exactly one call, that of the wrapped
  callable (\<open>f\<close> itself when \<open>f\<close> is not a property) with \<open>r\<close> in front of the arguments.  When
  that call returns \<^verbatim>\<open>None\<close> nothing is echoed; when it returns another value \<open>v\<close> whose JSON
  text is \<open>s\<close>, the one message echoed after the call is \<open>s\<close>.  In both cases the command
  returns what the call returned and leaves the context as it was.
\<close>

theorem command_adapter_calls_and_echoes:
  assumes "create_client_command f h = (i, h')"
    and "call_result rt (actual f) (r # args) kwargs = Inr v"
  shows "(\<not> is_property f \<longrightarrow> actual f = f)
       \<and> (v = PNone \<longrightarrow>
            invoke_node rt h' i \<lparr>ctx_obj = r\<rparr> args kwargs tr
            = (Inr PNone, \<lparr>ctx_obj = r\<rparr>, tr @ [Call (actual f) (r # args) kwargs]))
       \<and> (\<forall>s. v \<noteq> PNone \<and> dumps rt v = Inr s \<longrightarrow>
            invoke_node rt h' i \<lparr>ctx_obj = r\<rparr> args kwargs tr
            = (Inr v, \<lparr>ctx_obj = r\<rparr>, tr @ [Call (actual f) (r # args) kwargs, Echo s]))"
  using command_node(3) [OF assms(1)] assms(2)
  by (simp add: invoke_node_def invoke_command_callback)

theorem command_adapter_calls_and_echoes_witness:
  "create_client_command (PFunc list_fn) [] =
     (0, [Node CommandNode (Wrapper CommandNode (PFunc list_fn) ''list'' [Param OptionP ''--limit'' ''page size''])
            [Param OptionP ''--limit'' ''page size''] []])
   \<and> call_result sample_runtime (PFunc list_fn) [PObj 1] [] = Inr (PList [PDict [(''id'', PInt 1)]])
   \<and> dumps sample_runtime (PList [PDict [(''id'', PInt 1)]]) = Inr ''[{\"id\": 1}]''
   \<and> invoke_node sample_runtime (snd (create_client_command (PFunc list_fn) [])) 0
        \<lparr>ctx_obj = PObj 1\<rparr> [] [] []
      = (Inr (PList [PDict [(''id'', PInt 1)]]), \<lparr>ctx_obj = PObj 1\<rparr>,
         [Call (PFunc list_fn) [PObj 1] [], Echo ''[{\"id\": 1}]''])
   \<and> call_result sample_runtime (PFunc delete_fn) [PObj 1, PInt 7] [] = Inr PNone
   \<and> invoke_node sample_runtime (snd (create_client_command (PFunc delete_fn) [])) 0
        \<lparr>ctx_obj = PObj 1\<rparr> [PInt 7] [] []
      = (Inr PNone, \<lparr>ctx_obj = PObj 1\<rparr>, [Call (PFunc delete_fn) [PObj 1, PInt 7] []])"
proof -
  have a: "create_client_command (PFunc list_fn) [] =
     (0, snd (create_client_command (PFunc list_fn) []))"
    by (simp add: create_client_command_eq)
  have a': "create_client_command (PFunc delete_fn) [] =
     (0, snd (create_client_command (PFunc delete_fn) []))"
    by (simp add: create_client_command_eq)
  have b: "call_result sample_runtime (actual (PFunc list_fn)) [PObj 1] [] = Inr (PList [PDict [(''id'', PInt 1)]])"
    by (simp add: sample_runtime_def sample_call_def accounts_fn_def list_fn_def)
  have c: "dumps sample_runtime (PList [PDict [(''id'', PInt 1)]]) = Inr ''[{\"id\": 1}]''"
    by (simp add: sample_runtime_def sample_dumps_def)
  have e: "call_result sample_runtime (actual (PFunc delete_fn)) [PObj 1, PInt 7] [] = Inr PNone"
    by (simp add: sample_runtime_def sample_call_def accounts_fn_def list_fn_def delete_fn_def)
  have d: "create_client_command (PFunc list_fn) [] =
     (0, [Node CommandNode (Wrapper CommandNode (PFunc list_fn) ''list'' [Param OptionP ''--limit'' ''page size''])
            [Param OptionP ''--limit'' ''page size''] []])"
    by (simp add: create_client_command_def click_command_def update_wrapper_def list_fn_def)
  from command_adapter_calls_and_echoes [OF a b, of "[]"]
       command_adapter_calls_and_echoes [OF a' e, of "[]"] b c d e
  show ?thesis by simp
qed

text \<open>
  Claim C5.  Nothing is caught in the leaf wrapper.  When the wrapped callable raises, the
  command raises the same exception, after that one call and with nothing echoed.  When the
  callable returns a value other than \<^verbatim>\<open>None\<close> for which \<^verbatim>\<open>json.dumps\<close> raises, the command raises
  that exception, and again nothing is echoed: there is no other rendering of the value.
\<close>

theorem command_adapter_propagates_errors:
  assumes "create_client_command f h = (i, h')"
  shows "(\<forall>e. call_result rt (actual f) (r # args) kwargs = Inl e \<longrightarrow>
            invoke_node rt h' i \<lparr>ctx_obj = r\<rparr> args kwargs tr
            = (Inl e, \<lparr>ctx_obj = r\<rparr>, tr @ [Call (actual f) (r # args) kwargs]))
       \<and> (\<forall>v e. call_result rt (actual f) (r # args) kwargs = Inr v \<and> v \<noteq> PNone
                  \<and> dumps rt v = Inl e \<longrightarrow>
            invoke_node rt h' i \<lparr>ctx_obj = r\<rparr> args kwargs tr
            = (Inl e, \<lparr>ctx_obj = r\<rparr>, tr @ [Call (actual f) (r # args) kwargs]))"
  using command_node(3) [OF assms]
  by (simp add: invoke_node_def invoke_command_callback)

theorem command_adapter_propagates_errors_witness:
  "create_client_command (PFunc fail_fn) [] = (0, snd (create_client_command (PFunc fail_fn) []))
   \<and> call_result sample_runtime (actual (PFunc fail_fn)) [PObj 1] [] = Inl (Raised ''boom'')
   \<and> invoke_node sample_runtime (snd (create_client_command (PFunc fail_fn) [])) 0
        \<lparr>ctx_obj = PObj 1\<rparr> [] [] []
      = (Inl (Raised ''boom''), \<lparr>ctx_obj = PObj 1\<rparr>, [Call (PFunc fail_fn) [PObj 1] []])
   \<and> call_result sample_runtime (actual (PFunc get_fn)) [PObj 1, PObj 2] [] = Inr (PObj 1)
   \<and> dumps sample_runtime (PObj 1) = Inl TypeError
   \<and> invoke_node sample_runtime (snd (create_client_command (PFunc get_fn) [])) 0
        \<lparr>ctx_obj = PObj 1\<rparr> [PObj 2] [] []
      = (Inl TypeError, \<lparr>ctx_obj = PObj 1\<rparr>, [Call (PFunc get_fn) [PObj 1, PObj 2] []])"
proof -
  have a: "create_client_command (PFunc fail_fn) [] = (0, snd (create_client_command (PFunc fail_fn) []))"
    by (simp add: create_client_command_eq)
  have a': "create_client_command (PFunc get_fn) [] = (0, snd (create_client_command (PFunc get_fn) []))"
    by (simp add: create_client_command_eq)
  have b: "call_result sample_runtime (actual (PFunc fail_fn)) [PObj 1] [] = Inl (Raised ''boom'')"
    by (simp add: sample_runtime_def sample_call_def accounts_fn_def list_fn_def delete_fn_def
        get_fn_def fail_fn_def)
  have c: "call_result sample_runtime (actual (PFunc get_fn)) [PObj 1, PObj 2] [] = Inr (PObj 1)"
    by (simp add: sample_runtime_def sample_call_def accounts_fn_def list_fn_def delete_fn_def
        get_fn_def)
  have d: "dumps sample_runtime (PObj 1) = Inl TypeError"
    by (simp add: sample_runtime_def sample_dumps_def)
  from command_adapter_propagates_errors [OF a, of sample_runtime "PObj 1" "[]" "[]" "[]"]
       command_adapter_propagates_errors [OF a', of sample_runtime "PObj 1" "[PObj 2]" "[]" "[]"]
       a b c d
  show ?thesis by simp
qed

section \<open>The group adapter\<close>



text \<open>
  Claim C10.  The wrapper of a group returns \<^verbatim>\<open>None\<close> whatever the wrapped callable returned:
  the value \<open>v\<close> is only stored as the \<open>obj\<close> of the context.  The wrapper of a command built
  from the same \<open>f\<close> returns \<open>v\<close> itself (when \<open>v\<close> is \<^verbatim>\<open>None\<close> or has a JSON text) and leaves
  the context alone.
\<close>

theorem group_wrapper_returns_none:
  assumes "create_client_group f h = (i, h')"
    and "call_result rt (actual f) (r # args) kwargs = Inr v"
  shows "invoke_node rt h' i \<lparr>ctx_obj = r\<rparr> args kwargs tr
           = (Inr PNone, \<lparr>ctx_obj = v\<rparr>, tr @ [Call (actual f) (r # args) kwargs])
       \<and> (\<forall>j h''. create_client_command f h = (j, h'') \<and> (v = PNone \<or> (\<exists>s. dumps rt v = Inr s)) \<longrightarrow>
              fst (invoke_node rt h'' j \<lparr>ctx_obj = r\<rparr> args kwargs tr) = Inr v
              \<and> fst (snd (invoke_node rt h'' j \<lparr>ctx_obj = r\<rparr> args kwargs tr)) = \<lparr>ctx_obj = r\<rparr>)"
proof (intro conjI allI impI)
  show "invoke_node rt h' i \<lparr>ctx_obj = r\<rparr> args kwargs tr
           = (Inr PNone, \<lparr>ctx_obj = v\<rparr>, tr @ [Call (actual f) (r # args) kwargs])"
    using group_node(3) [OF assms(1)] assms(2)
    by (simp add: invoke_node_def invoke_group_callback)
next
  fix j h''
  assume c: "create_client_command f h = (j, h'') \<and> (v = PNone \<or> (\<exists>s. dumps rt v = Inr s))"
  then have n: "h'' ! j = Node CommandNode (adapter_callback CommandNode f)
                    (w_params (adapter_callback CommandNode f)) []"
    using command_node(3) by blast
  from c n assms(2)
  show "fst (invoke_node rt h'' j \<lparr>ctx_obj = r\<rparr> args kwargs tr) = Inr v"
    by (auto simp: invoke_node_def invoke_command_callback)
  from c n assms(2)
  show "fst (snd (invoke_node rt h'' j \<lparr>ctx_obj = r\<rparr> args kwargs tr)) = \<lparr>ctx_obj = r\<rparr>"
    by (auto simp: invoke_node_def invoke_command_callback)
qed

theorem group_wrapper_returns_none_witness:
  "create_client_group (PFunc list_fn) [] = (0, snd (create_client_group (PFunc list_fn) []))
   \<and> call_result sample_runtime (actual (PFunc list_fn)) [PObj 1] [] = Inr (PList [PDict [(''id'', PInt 1)]])
   \<and> invoke_node sample_runtime (snd (create_client_group (PFunc list_fn) [])) 0
        \<lparr>ctx_obj = PObj 1\<rparr> [] [] []
      = (Inr PNone, \<lparr>ctx_obj = PList [PDict [(''id'', PInt 1)]]\<rparr>, [Call (PFunc list_fn) [PObj 1] []])
   \<and> fst (invoke_node sample_runtime (snd (create_client_command (PFunc list_fn) [])) 0
        \<lparr>ctx_obj = PObj 1\<rparr> [] [] []) = Inr (PList [PDict [(''id'', PInt 1)]])"
proof -
  have a: "create_client_group (PFunc list_fn) [] = (0, snd (create_client_group (PFunc list_fn) []))"
    by (simp add: create_client_group_eq)
  have a': "create_client_command (PFunc list_fn) [] = (0, snd (create_client_command (PFunc list_fn) []))"
    by (simp add: create_client_command_eq)
  have b: "call_result sample_runtime (actual (PFunc list_fn)) [PObj 1] [] = Inr (PList [PDict [(''id'', PInt 1)]])"
    by (simp add: sample_runtime_def sample_call_def accounts_fn_def list_fn_def)
  have c: "dumps sample_runtime (PList [PDict [(''id'', PInt 1)]]) = Inr ''[{\"id\": 1}]''"
    by (simp add: sample_runtime_def sample_dumps_def)
  from group_wrapper_returns_none [OF a b, of "[]"] a a' b c
  show ?thesis by auto
qed

section \<open>What both adapters do with their input\<close>

text \<open>
  Claim C8.  In the node either adapter builds from \<open>f\<close>, the callable the callback wraps is
  the getter \<open>fget f\<close> when \<open>f\<close> is a property and \<open>f\<close> itself otherwise, and running the node
  runs the body of \<^verbatim>\<open>new_func\<close> on that callable.
\<close>

theorem adapters_wrap_getter_of_property:
  "w_actual (n_callback (snd (create_client_command f h) ! fst (create_client_command f h)))
     = (if is_property f then fget f else f)
   \<and> w_actual (n_callback (snd (create_client_group f h) ! fst (create_client_group f h)))
     = (if is_property f then fget f else f)
   \<and> invoke_node rt (snd (create_client_command f h)) (fst (create_client_command f h))
        ctx args kwargs tr
     = (case command_new_func rt (if is_property f then fget f else f) (ctx_obj ctx) args kwargs tr of
          (res, tr') \<Rightarrow> (res, ctx, tr'))
   \<and> invoke_node rt (snd (create_client_group f h)) (fst (create_client_group f h))
        ctx args kwargs tr
     = group_new_func rt (if is_property f then fget f else f) ctx (ctx_obj ctx) args kwargs tr"
  by (simp add: create_client_command_eq create_client_group_eq invoke_node_def
      invoke_callback_def actual_def)

theorem adapters_wrap_getter_of_property_witness:
  "w_actual (n_callback (snd (create_client_command (PProperty (PFunc accounts_fn)) [])
       ! fst (create_client_command (PProperty (PFunc accounts_fn)) []))) = PFunc accounts_fn
   \<and> w_actual (n_callback (snd (create_client_group (PProperty (PFunc accounts_fn)) [])
       ! fst (create_client_group (PProperty (PFunc accounts_fn)) []))) = PFunc accounts_fn
   \<and> w_actual (n_callback (snd (create_client_command (PFunc list_fn) [])
       ! fst (create_client_command (PFunc list_fn) []))) = PFunc list_fn
   \<and> w_actual (n_callback (snd (create_client_group (PObj 3) [])
       ! fst (create_client_group (PObj 3) []))) = PObj 3"
  using adapters_wrap_getter_of_property [of "PProperty (PFunc accounts_fn)" "[]" sample_runtime "\<lparr>ctx_obj = PNone\<rparr>" "[]" "[]" "[]"]
    adapters_wrap_getter_of_property [of "PFunc list_fn" "[]" sample_runtime "\<lparr>ctx_obj = PNone\<rparr>" "[]" "[]" "[]"]
    adapters_wrap_getter_of_property [of "PObj 3" "[]" sample_runtime "\<lparr>ctx_obj = PNone\<rparr>" "[]" "[]" "[]"]
  by simp



section \<open>Discovery\<close>



section \<open>What the tree builder builds\<close>

text \<open>
  Claim C9.  The descriptors treated as groups are exactly the dictionaries that have the key
  \<^verbatim>\<open>context\<close>.  For every descriptor \<open>cmd\<close> and store \<open>h\<close> the loop body allocates a node at the
  first free address, and that node is a group exactly when \<open>cmd\<close> is such a dictionary; its
  callback is then the one the group adapter makes from the \<^verbatim>\<open>context\<close> entry.  Any other
  descriptor, a dictionary without the key included, is handed to the command adapter and
  yielded as a command: the loop body cannot fail on it.
\<close>

theorem group_iff_dict_with_context:
  "(is_group_descriptor cmd \<longleftrightarrow> (\<exists>kvs. cmd = PDict kvs \<and> ''context'' \<in> fst ` set kvs))
   \<and> length h < length (snd (yield_node cmd h))
   \<and> (n_kind (snd (yield_node cmd h) ! length h) = GroupNode \<longleftrightarrow> is_group_descriptor cmd)
   \<and> (is_group_descriptor cmd \<longrightarrow>
        n_callback (snd (yield_node cmd h) ! length h)
          = n_callback (snd (create_client_group (context_of cmd) h) ! length h))
   \<and> (\<not> is_group_descriptor cmd \<longrightarrow>
        yield_node cmd h = (Inr (fst (create_client_command cmd h)), snd (create_client_command cmd h))
        \<and> gen_next (Suspended (cmd # rest)) h
            = (Yield (length h), Suspended rest, snd (create_client_command cmd h)))"
proof -
  obtain r h' where y: "yield_node cmd h = (r, h')" by (cases "yield_node cmd h")
  from yield_node_first [OF y] y show ?thesis
    by (auto simp: is_group_descriptor_iff [symmetric] yield_node_leaf
        create_client_group_eq create_client_command_eq)
qed

theorem group_iff_dict_with_context_witness:
  "\<not> is_group_descriptor (PDict [(''commands'', PList [PFunc list_fn])])
   \<and> yield_node (PDict [(''commands'', PList [PFunc list_fn])]) []
       = (Inr 0, [Node CommandNode
                    (Wrapper CommandNode (PDict [(''commands'', PList [PFunc list_fn])]) ''new_func'' [])
                    [] []])
   \<and> is_group_descriptor sample_group
   \<and> n_kind (snd (yield_node sample_group []) ! 0) = GroupNode
   \<and> n_kind (snd (yield_node (PFunc list_fn) []) ! 0) = CommandNode"
proof -
  have a: "\<not> is_group_descriptor (PDict [(''commands'', PList [PFunc list_fn])])" by simp
  have b: "is_group_descriptor sample_group" by (simp add: sample_group_def)
  have c: "create_client_command (PDict [(''commands'', PList [PFunc list_fn])]) []
       = (0, [Node CommandNode
                    (Wrapper CommandNode (PDict [(''commands'', PList [PFunc list_fn])]) ''new_func'' [])
                    [] []])"
    by (simp add: create_client_command_eq adapter_callback_def update_wrapper_def)
  from group_iff_dict_with_context [of "PDict [(''commands'', PList [PFunc list_fn])]" "[]" "[]"]
       group_iff_dict_with_context [of sample_group "[]" "[]"]
       group_iff_dict_with_context [of "PFunc list_fn" "[]" "[]"]
       a b c
  show ?thesis by (simp add: create_client_command_eq)
qed





end
